theory Spec2Isabelle
  imports Complex_Main "HOL-Library.AList" "HOL-Library.Sublist" "HOL-Library.Multiset"
begin

section \<open>Data model (ai\_clients.py, aggregator.py)\<close>

text \<open>
  Python \<open>str\<close> values are modelled as \<open>string\<close>, holding the UTF-8 bytes of the text;
  substring search on well-formed UTF-8 agrees with substring search on code points.
  \<open>execution_time\<close> is a Python float, modelled as a real number; no property below
  depends on it.
\<close>

record AIResponse =
  success :: bool
  "output" :: string
  errors :: "string option"
  execution_time :: real
  model :: string
  ai_name :: string

record ReviewSummary =
  total_reviews :: int
  successful_reviews :: int
  reviews_by_ai :: "(string \<times> string) list"

text \<open>
  A Python \<open>dict\<close> keeps its keys in insertion order and \<open>d[k] = v\<close> overwrites the value
  of an existing key in place; this is \<^const>\<open>AList.update\<close> on an association list,
  and \<open>len(d)\<close> is the length of that list.
\<close>

section \<open>ReviewAggregator.aggregate\<close>

text \<open>The loop \<open>for review in reviews: if review.success: reviews_by_ai[...] = ...\<close>.\<close>

fun aggregate_loop :: "AIResponse list \<Rightarrow> (string \<times> string) list \<Rightarrow> (string \<times> string) list" where
  "aggregate_loop [] d = d"
| "aggregate_loop (review # reviews) d =
     aggregate_loop reviews
       (if success review then AList.update (ai_name review) (output review) d else d)"

definition aggregate :: "AIResponse list \<Rightarrow> ReviewSummary" where
  "aggregate reviews =
     (let d = aggregate_loop reviews []
      in \<lparr> total_reviews = int (length reviews),
           successful_reviews = int (length d),
           reviews_by_ai = d \<rparr>)"

section \<open>ReviewAggregator.find\_common\_themes\<close>

text \<open>
  \<open>str.lower()\<close> is modelled on the ASCII letters; every other byte is left as it is.
  The keywords are lower-case ASCII words and Chinese words (which have no case).
\<close>

definition lower_char :: "char \<Rightarrow> char" where
  "lower_char c =
     (if 65 \<le> (of_char c :: nat) \<and> (of_char c :: nat) \<le> 90
      then char_of ((of_char c :: nat) + 32) else c)"

definition lower :: "string \<Rightarrow> string" where
  "lower s = map lower_char s"

text \<open>The keyword list of the source, the Chinese words as their UTF-8 bytes.\<close>

definition keywords' :: "string list" where
  "keywords' =
     [''bug'',
      [CHR 0xE9, CHR 0x94, CHR 0x99, CHR 0xE8, CHR 0xAF, CHR 0xAF],
      ''error'',
      ''issue'',
      [CHR 0xE9, CHR 0x97, CHR 0xAE, CHR 0xE9, CHR 0xA2, CHR 0x98],
      ''security'',
      [CHR 0xE5, CHR 0xAE, CHR 0x89, CHR 0xE5, CHR 0x85, CHR 0xA8],
      ''performance'',
      [CHR 0xE6, CHR 0x80, CHR 0xA7, CHR 0xE8, CHR 0x83, CHR 0xBD],
      ''optimize'',
      [CHR 0xE4, CHR 0xBC, CHR 0x98, CHR 0xE5, CHR 0x8C, CHR 0x96],
      ''improve'',
      [CHR 0xE6, CHR 0x94, CHR 0xB9, CHR 0xE8, CHR 0xBF, CHR 0x9B]]"

text \<open>Decimal rendering of a count, as the f-string \<open>{count}\<close> does.\<close>

fun str_nat :: "nat \<Rightarrow> string" where
  "str_nat n =
     (if n < 10 then [''0123456789'' ! n]
      else str_nat (n div 10) @ [''0123456789'' ! (n mod 10)])"

declare str_nat.simps [simp del]

text \<open>\<open>sum(1 for r in reviews if keyword.lower() in r.output.lower())\<close>\<close>

definition mentions :: "string \<Rightarrow> AIResponse list \<Rightarrow> nat" where
  "mentions keyword reviews =
     length (filter (\<lambda>r. sublist (lower keyword) (lower (output r))) reviews)"

text \<open>The entry \<open>f"{keyword} (... {count} ...)"\<close>, the Chinese words as UTF-8 bytes.\<close>

definition theme :: "string \<Rightarrow> nat \<Rightarrow> string" where
  "theme keyword cnt =
     keyword @ [CHR 0x20, CHR 0x28, CHR 0xE6, CHR 0x8F, CHR 0x90, CHR 0xE5, CHR 0x88, CHR 0xB0, CHR 0x20]
       @ str_nat cnt @ [CHR 0x20, CHR 0xE6, CHR 0xAC, CHR 0xA1, CHR 0x29]"

fun themes_loop :: "string list \<Rightarrow> AIResponse list \<Rightarrow> string list \<Rightarrow> string list" where
  "themes_loop [] reviews common_themes = common_themes"
| "themes_loop (keyword # ks) reviews common_themes =
     (let cnt = mentions keyword reviews
      in themes_loop ks reviews
           (if cnt \<ge> 2 then common_themes @ [theme keyword cnt] else common_themes))"

definition find_common_themes :: "AIResponse list \<Rightarrow> string list" where
  "find_common_themes reviews = themes_loop keywords' reviews []"

section \<open>AI clients (ai\_clients.py)\<close>

text \<open>
  The agents are external processes. What \<open>_run_subprocess\<close> yields for a call is not
  determined by the program, so it is a parameter of the model: an outcome for every
  call. The command line and the prompt text of a call are not modelled; a call is
  identified by the client and the arguments of the method.
\<close>

datatype client_class = GeminiClient | ClaudeClient | CodexClient

record ai_section =
  enabled :: bool
  cfg_model :: "string option"

record client =
  client_class :: client_class
  name :: string
  config :: ai_section

type_synonym files = "string \<rightharpoonup> string"

text \<open>
  The outcome of a subprocess: it exits with \<open>(returncode, stdout, stderr)\<close> after some
  time, the call raises, or it has not finished (at the deadline of the review batch,
  or ever).
\<close>

datatype proc_outcome = Exited int string string real | Fault string | Unfinished

datatype 'a awaited = Value 'a | Raise string | Pending

record env =
  implement_proc :: "client \<Rightarrow> string \<Rightarrow> string list \<Rightarrow> proc_outcome"
  review_proc :: "client \<Rightarrow> string \<Rightarrow> string \<Rightarrow> string \<Rightarrow> proc_outcome"
  improve_proc :: "client \<Rightarrow> string \<Rightarrow> string \<Rightarrow> string \<Rightarrow> files \<Rightarrow> proc_outcome \<times> files"
  generate :: "string \<Rightarrow> AIResponse \<Rightarrow> ReviewSummary \<Rightarrow> string list
                 \<Rightarrow> (string \<times> string) list option \<Rightarrow> string option \<Rightarrow> string"

text \<open>The \<open>AIResponse(success=returncode == 0, output=stdout, ...)\<close> that the Gemini and
  Claude methods build from the result of the subprocess.\<close>

definition response :: "client \<Rightarrow> string \<Rightarrow> proc_outcome \<Rightarrow> AIResponse awaited" where
  "response c m p =
     (case p of
        Exited returncode stdout stderr elapsed \<Rightarrow>
          Value \<lparr> success = (returncode = 0), output = stdout,
                  errors = (if returncode \<noteq> 0 then Some stderr else None),
                  execution_time = elapsed, model = m, ai_name = name c \<rparr>
      | Fault e \<Rightarrow> Raise e
      | Unfinished \<Rightarrow> Pending)"

definition codex_disabled :: "client \<Rightarrow> AIResponse" where
  "codex_disabled c =
     \<lparr> success = False, output = [],
       errors = Some ''Codex is currently disabled (API key issue)'',
       execution_time = 0, model = ''codex'', ai_name = name c \<rparr>"

text \<open>The Gemini methods read \<open>self.config['model']\<close> for the command line, a KeyError
  when the key is missing.\<close>

definition implement :: "env \<Rightarrow> client \<Rightarrow> string \<Rightarrow> string list \<Rightarrow> AIResponse awaited" where
  "implement e c prompt context_files =
     (case client_class c of
        GeminiClient \<Rightarrow>
          (case cfg_model (config c) of
             None \<Rightarrow> Raise ''KeyError''
           | Some m \<Rightarrow> response c m (implement_proc e c prompt context_files))
      | ClaudeClient \<Rightarrow> response c ''claude'' (implement_proc e c prompt context_files)
      | CodexClient \<Rightarrow> Value (codex_disabled c))"

definition review :: "env \<Rightarrow> client \<Rightarrow> string \<Rightarrow> string \<Rightarrow> string \<Rightarrow> AIResponse awaited" where
  "review e c code original_prompt context =
     (case client_class c of
        GeminiClient \<Rightarrow>
          (case cfg_model (config c) of
             None \<Rightarrow> Raise ''KeyError''
           | Some m \<Rightarrow> response c m (review_proc e c code original_prompt context))
      | ClaudeClient \<Rightarrow> response c ''claude'' (review_proc e c code original_prompt context)
      | CodexClient \<Rightarrow> Value (codex_disabled c))"

text \<open>\<open>hasattr(reviewer, 'improve_file')\<close>: GeminiClient and ClaudeClient define the
  method, CodexClient and the base class do not.\<close>

definition has_improve_file :: "client \<Rightarrow> bool" where
  "has_improve_file c = (client_class c \<noteq> CodexClient)"

definition improve_file ::
  "env \<Rightarrow> client \<Rightarrow> string \<Rightarrow> string \<Rightarrow> string \<Rightarrow> files \<Rightarrow> AIResponse awaited \<times> files" where
  "improve_file e c file_path review_output original_prompt fs =
     (case client_class c of
        GeminiClient \<Rightarrow>
          (case cfg_model (config c) of
             None \<Rightarrow> (Raise ''KeyError'', fs)
           | Some m \<Rightarrow>
               (let (p, fs') = improve_proc e c file_path review_output original_prompt fs
                in (response c m p, fs')))
      | ClaudeClient \<Rightarrow>
          (let (p, fs') = improve_proc e c file_path review_output original_prompt fs
           in (response c ''claude'' p, fs'))
      | CodexClient \<Rightarrow> (Raise ''AttributeError'', fs))"

definition create_client :: "string \<Rightarrow> ai_section \<Rightarrow> string + client" where
  "create_client nm section =
     (if lower nm = ''gemini'' then Inr \<lparr> client_class = GeminiClient, name = nm, config = section \<rparr>
      else if lower nm = ''claude'' then Inr \<lparr> client_class = ClaudeClient, name = nm, config = section \<rparr>
      else if lower nm = ''codex'' then Inr \<lparr> client_class = CodexClient, name = nm, config = section \<rparr>
      else Inl ''ValueError'')"

section \<open>ParallelReviewer.review\_code (reviewer.py)\<close>

text \<open>
  \<open>asyncio.gather(*tasks, return_exceptions=True)\<close> under \<open>asyncio.wait_for\<close>: when every
  task has settled before the timeout, the results in the order of the tasks, a raised
  exception in the place of a result; \<open>None\<close> when some task is still pending when the
  timeout elapses (\<open>wait_for\<close> then cancels the batch and raises TimeoutError).
\<close>

fun gather :: "'a awaited list \<Rightarrow> (string + 'a) list option" where
  "gather [] = Some []"
| "gather (Pending # ts) = None"
| "gather (Value r # ts) = map_option ((#) (Inr r)) (gather ts)"
| "gather (Raise e # ts) = map_option ((#) (Inl e)) (gather ts)"

fun successful_loop :: "(string + AIResponse) list \<Rightarrow> AIResponse list \<Rightarrow> AIResponse list" where
  "successful_loop [] acc = acc"
| "successful_loop (Inr rv # reviews) acc =
     successful_loop reviews (if success rv then acc @ [rv] else acc)"
| "successful_loop (Inl e # reviews) acc = successful_loop reviews acc"

definition review_code ::
  "env \<Rightarrow> AIResponse \<Rightarrow> client list \<Rightarrow> string \<Rightarrow> string \<Rightarrow> AIResponse list" where
  "review_code e implementation reviewers original_prompt context =
     (let tasks = map (\<lambda>reviewer. review e reviewer (output implementation) original_prompt context)
                      reviewers
      in case gather tasks of
           Some reviews \<Rightarrow> successful_loop reviews []
         | None \<Rightarrow> [])"

section \<open>run\_review\_workflow (main.py)\<close>

text \<open>
  The configuration read from the TOML file: the \<open>ai\<close> table and
  \<open>config['execution']['timeout_seconds']\<close> (\<open>None\<close> when a key is missing). Console
  output is not modelled. The file system is a map from paths to contents, and \<open>tmp\<close> is
  the name that \<open>tempfile.NamedTemporaryFile\<close> picks.
\<close>

record app_config =
  ai :: "string \<rightharpoonup> ai_section"
  timeout_seconds :: "int option"

definition lookup_client :: "app_config \<Rightarrow> string \<Rightarrow> string + client" where
  "lookup_client cfg nm =
     (case ai cfg nm of None \<Rightarrow> Inl ''KeyError'' | Some section \<Rightarrow> create_client nm section)"

fun create_clients :: "app_config \<Rightarrow> string list \<Rightarrow> string + client list" where
  "create_clients cfg [] = Inr []"
| "create_clients cfg (nm # nms) =
     (case lookup_client cfg nm of
        Inl x \<Rightarrow> Inl x
      | Inr c \<Rightarrow> (case create_clients cfg nms of Inl x \<Rightarrow> Inl x | Inr cs \<Rightarrow> Inr (c # cs)))"

text \<open>\<open>"\n".join([f"...: {f}" for f in context_files])\<close>, the Chinese label as UTF-8 bytes.\<close>

fun join_lines :: "string list \<Rightarrow> string" where
  "join_lines [] = []"
| "join_lines [l] = l"
| "join_lines (l # ls) = l @ [CHR 0x0A] @ join_lines ls"

definition build_context :: "string list \<Rightarrow> string" where
  "build_context context_files =
     join_lines (map (\<lambda>f. [CHR 0xE6, CHR 0x96, CHR 0x87, CHR 0xE4, CHR 0xBB, CHR 0xB6, CHR 0x3A, CHR 0x20] @ f)
                     context_files)"

text \<open>
  The state of the improvement loop: the file system, the dict \<open>improvement_logs\<close>, and
  \<open>calls\<close>, which is not a variable of the source: it lists the calls of
  \<open>improve_file\<close> in the order in which they were made, each with the name of the
  reviewer called and what the call yielded.
\<close>

record loop_state =
  fs :: files
  improvement_logs :: "(string \<times> string) list"
  calls :: "(string \<times> AIResponse awaited) list"

text \<open>
  \<open>for review in review_results:\<close> One call is awaited before the next review is looked
  at. An exception of a call is not caught and ends the loop, and a call that never
  returns stops it.
\<close>

fun improve_loop ::
  "env \<Rightarrow> client list \<Rightarrow> string \<Rightarrow> string \<Rightarrow> AIResponse list \<Rightarrow> loop_state
     \<Rightarrow> unit awaited \<times> loop_state" where
  "improve_loop e reviewers code_file prompt [] st = (Value (), st)"
| "improve_loop e reviewers code_file prompt (rv # rest) st =
     (case find (\<lambda>r. name r = ai_name rv) reviewers of
        None \<Rightarrow> improve_loop e reviewers code_file prompt rest st
      | Some reviewer \<Rightarrow>
          if \<not> has_improve_file reviewer then improve_loop e reviewers code_file prompt rest st
          else
            (case improve_file e reviewer code_file (output rv) prompt (fs st) of
               (Value improved, fs') \<Rightarrow>
                 improve_loop e reviewers code_file prompt rest
                   \<lparr> fs = fs',
                     improvement_logs =
                       (if success improved
                        then AList.update (ai_name rv) (output improved) (improvement_logs st)
                        else improvement_logs st),
                     calls = calls st @ [(name reviewer, Value improved)] \<rparr>
             | (Raise x, fs') \<Rightarrow>
                 (Raise x, st\<lparr> fs := fs', calls := calls st @ [(name reviewer, Raise x)] \<rparr>)
             | (Pending, fs') \<Rightarrow>
                 (Pending, st\<lparr> fs := fs', calls := calls st @ [(name reviewer, Pending)] \<rparr>)))"

datatype ending = Finished | ReturnedEarly | Raised string | NeverReturns

record run =
  ending :: ending
  final_files :: files
  code_file :: "string option"
  review_results :: "AIResponse list"
  logs :: "(string \<times> string) list"
  improve_calls :: "(string \<times> AIResponse awaited) list"
  final_improved_code :: "string option"
  summary :: "ReviewSummary option"
  themes :: "string list"

definition stop :: "ending \<Rightarrow> files \<Rightarrow> run" where
  "stop how files0 =
     \<lparr> ending = how, final_files = files0, code_file = None, review_results = [], logs = [],
       improve_calls = [], final_improved_code = None, summary = None, themes = [] \<rparr>"

text \<open>Phase 4: aggregate, render the report and save it when \<open>output_path\<close> is given.\<close>

definition report_phase ::
  "env \<Rightarrow> string \<Rightarrow> AIResponse \<Rightarrow> AIResponse list \<Rightarrow> string option \<Rightarrow> bool
     \<Rightarrow> string option \<Rightarrow> string option \<Rightarrow> loop_state \<Rightarrow> run" where
  "report_phase e prompt implementation results output_path enable_iteration file final st =
     (let sm = aggregate results;
          common_themes = find_common_themes results;
          report = generate e prompt implementation sm common_themes
                     (if enable_iteration then Some (improvement_logs st) else None)
                     (if enable_iteration then final else None)
      in \<lparr> ending = Finished,
           final_files =
             (case output_path of
                None \<Rightarrow> fs st
              | Some p \<Rightarrow> if p \<noteq> [] then (fs st)(p \<mapsto> report) else fs st),
           code_file = file, review_results = results, logs = improvement_logs st,
           improve_calls = calls st, final_improved_code = final, summary = Some sm,
           themes = common_themes \<rparr>)"

text \<open>Phase 3: the temporary file is created with \<open>delete=False\<close>, the reviewers edit it one
  after the other, and it is read back (\<open>None\<close> when the read fails).\<close>

definition improvement_phase ::
  "env \<Rightarrow> string \<Rightarrow> AIResponse \<Rightarrow> client list \<Rightarrow> AIResponse list \<Rightarrow> string option \<Rightarrow> bool
     \<Rightarrow> string \<Rightarrow> files \<Rightarrow> run" where
  "improvement_phase e prompt implementation reviewers results output_path enable_iteration tmp files0 =
     (if enable_iteration \<and> results \<noteq> [] then
        (case improve_loop e reviewers tmp prompt results
                \<lparr> fs = files0(tmp \<mapsto> output implementation), improvement_logs = [], calls = [] \<rparr> of
           (Value u, st) \<Rightarrow>
             report_phase e prompt implementation results output_path enable_iteration
               (Some tmp) (fs st tmp) st
         | (Raise x, st) \<Rightarrow>
             \<lparr> ending = Raised x, final_files = fs st, code_file = Some tmp,
               review_results = results, logs = improvement_logs st, improve_calls = calls st,
               final_improved_code = None, summary = None, themes = [] \<rparr>
         | (Pending, st) \<Rightarrow>
             \<lparr> ending = NeverReturns, final_files = fs st, code_file = Some tmp,
               review_results = results, logs = improvement_logs st, improve_calls = calls st,
               final_improved_code = None, summary = None, themes = [] \<rparr>)
      else
        report_phase e prompt implementation results output_path enable_iteration None None
          \<lparr> fs = files0, improvement_logs = [], calls = [] \<rparr>)"

definition run_review_workflow ::
  "env \<Rightarrow> string \<Rightarrow> string \<Rightarrow> string list \<Rightarrow> string list \<Rightarrow> string option \<Rightarrow> app_config
     \<Rightarrow> bool \<Rightarrow> string \<Rightarrow> files \<Rightarrow> run" where
  "run_review_workflow e prompt implementer_name reviewer_names context_files output_path cfg
       enable_iteration tmp files0 =
     (case lookup_client cfg implementer_name of
        Inl x \<Rightarrow> stop ReturnedEarly files0
      | Inr implementer \<Rightarrow>
          (case create_clients cfg reviewer_names of
             Inl x \<Rightarrow> stop ReturnedEarly files0
           | Inr reviewers \<Rightarrow>
               (case implement e implementer prompt context_files of
                  Raise x \<Rightarrow> stop (Raised x) files0
                | Pending \<Rightarrow> stop NeverReturns files0
                | Value implementation \<Rightarrow>
                    if \<not> success implementation then stop ReturnedEarly files0
                    else
                      (case timeout_seconds cfg of
                         None \<Rightarrow> stop (Raised ''KeyError'') files0
                       | Some t \<Rightarrow>
                           improvement_phase e prompt implementation reviewers
                             (review_code e implementation reviewers prompt
                                (build_context context_files))
                             output_path enable_iteration tmp files0))))"

section \<open>main: the filter of disabled reviewers (main.py)\<close>

text \<open>
  \<open>for reviewer in reviewer_list: if not cfg['ai'][reviewer]['enabled']:
  reviewer_list.remove(reviewer)\<close>. A Python list iterator keeps an index into the list:
  each round reads \<open>reviewer_list[i]\<close> while \<open>i < len(reviewer_list)\<close> and then advances
  \<open>i\<close>, whatever the body did to the list; \<open>list.remove\<close> deletes the first occurrence.
\<close>

function filter_loop :: "app_config \<Rightarrow> string list \<Rightarrow> nat \<Rightarrow> string + string list" where
  "filter_loop cfg reviewer_list i =
     (if i < length reviewer_list then
        (case ai cfg (reviewer_list ! i) of
           None \<Rightarrow> Inl ''KeyError''
         | Some section \<Rightarrow>
             if \<not> enabled section
             then filter_loop cfg (remove1 (reviewer_list ! i) reviewer_list) (i + 1)
             else filter_loop cfg reviewer_list (i + 1))
      else Inr reviewer_list)"
  by pat_completeness auto
termination
  by (relation "measure (\<lambda>(cfg, l, i). length l - i)") (auto simp: length_remove1)

declare filter_loop.simps [simp del]

text \<open>The part of \<open>main\<close> that computes the \<open>reviewer_names\<close> handed to the workflow;
  \<open>reviewer_list\<close> is the parsed \<open>--reviewers\<close> option.\<close>

definition main_reviewers :: "app_config \<Rightarrow> string \<Rightarrow> string list \<Rightarrow> string + string list" where
  "main_reviewers cfg implementer reviewer_list =
     (case ai cfg implementer of
        None \<Rightarrow> Inl ''KeyError''
      | Some section \<Rightarrow>
          if \<not> enabled section then Inl ''SystemExit''
          else
            (case filter_loop cfg reviewer_list 0 of
               Inl x \<Rightarrow> Inl x
             | Inr rl \<Rightarrow> if rl = [] then Inl ''SystemExit'' else Inr rl))"

definition main ::
  "env \<Rightarrow> string \<Rightarrow> string \<Rightarrow> string list \<Rightarrow> string list \<Rightarrow> string option \<Rightarrow> app_config
     \<Rightarrow> bool \<Rightarrow> string \<Rightarrow> files \<Rightarrow> string + run" where
  "main e prompt implementer reviewer_list context_file out cfg no_iteration tmp files0 =
     (case main_reviewers cfg implementer reviewer_list of
        Inl x \<Rightarrow> Inl x
      | Inr rl \<Rightarrow>
          Inr (run_review_workflow e prompt implementer rl context_file out cfg
                 (\<not> no_iteration) tmp files0))"

section \<open>Singleton (singleton.py)\<close>

text \<open>
  Objects live in a heap, a list indexed by address, so that "the same object" is
  "the same address". An object has the attributes \<open>value\<close> and \<open>_initialized\<close>, each
  \<open>None\<close> until it is assigned; \<open>instance'\<close> is the class attribute \<open>_instance\<close>. Calls are
  sequential: the lock is not modelled.
\<close>

record 'v singleton_obj =
  value' :: "'v option"
  initialized :: "bool option"

record 'v world =
  heap :: "'v singleton_obj list"
  instance' :: "nat option"

definition new' :: "'v world \<Rightarrow> nat \<times> 'v world" where
  "new' w =
     (case instance' w of
        Some a \<Rightarrow> (a, w)
      | None \<Rightarrow>
          (length (heap w),
           w\<lparr> heap := heap w @ [\<lparr> value' = None, initialized = None \<rparr>],
              instance' := Some (length (heap w)) \<rparr>))"

definition init :: "nat \<Rightarrow> 'v \<Rightarrow> 'v world \<Rightarrow> 'v world" where
  "init self v w =
     (if self < length (heap w) then
        (if initialized (heap w ! self) = Some True then w
         else w\<lparr> heap := (heap w)[self := (heap w ! self)\<lparr> value' := Some v, initialized := Some True \<rparr>] \<rparr>)
      else w)"

text \<open>The call \<open>Singleton(v)\<close>: \<open>__new__\<close>, then \<open>__init__\<close> on the object it returned.\<close>

definition Singleton :: "'v \<Rightarrow> 'v world \<Rightarrow> nat \<times> 'v world" where
  "Singleton v w = (let (self, w') = new' w in (self, init self v w'))"

text \<open>A sequence of calls; for each the address returned and the \<open>value\<close> read on it.\<close>

fun constructs :: "'v list \<Rightarrow> 'v world \<Rightarrow> (nat \<times> 'v option) list \<times> 'v world" where
  "constructs [] w = ([], w)"
| "constructs (v # vs) w =
     (let (a, w') = Singleton v w;
          (rs, w'') = constructs vs w'
      in ((a, value' (heap w' ! a)) # rs, w''))"

section \<open>Notions used to state the properties of the improvement loop\<close>

text \<open>A call of \<open>improve_file\<close> is successful when it returned a response with
  \<open>success == True\<close>; \<open>call_output\<close> is the output of the response it returned.\<close>

definition successful_call :: "AIResponse awaited \<Rightarrow> bool" where
  "successful_call a = (case a of Value r \<Rightarrow> success r | Raise x \<Rightarrow> False | Pending \<Rightarrow> False)"

definition call_output :: "AIResponse awaited \<Rightarrow> string" where
  "call_output a = (case a of Value r \<Rightarrow> output r | Raise x \<Rightarrow> [] | Pending \<Rightarrow> [])"

text \<open>What a list of calls records for an agent name: the output of the last successful
  call of that agent, and nothing when the agent has no successful call.\<close>

definition recorded :: "(string \<times> AIResponse awaited) list \<Rightarrow> string \<Rightarrow> string option" where
  "recorded cs k =
     (case filter (\<lambda>c. fst c = k \<and> successful_call (snd c)) cs of
        [] \<Rightarrow> None
      | x # xs \<Rightarrow> Some (call_output (snd (last (x # xs)))))"


section \<open>Notions used to state the properties of find\_common\_themes\<close>

text \<open>The number that a string of decimal digits denotes.\<close>

definition digit_value :: "char \<Rightarrow> nat" where
  "digit_value c = (of_char c :: nat) - 48"

definition decimal_value :: "string \<Rightarrow> nat" where
  "decimal_value s = foldl (\<lambda>a c. 10 * a + digit_value c) 0 s"

text \<open>The lower-case letter of an upper-case ASCII letter, by table; any other byte is
  mapped to itself.\<close>

definition ascii_lower :: "char \<Rightarrow> char" where
  "ascii_lower c =
     (case map_of (zip ''ABCDEFGHIJKLMNOPQRSTUVWXYZ'' ''abcdefghijklmnopqrstuvwxyz'') c of
        None \<Rightarrow> c
      | Some l \<Rightarrow> l)"

section \<open>Notions used to state the properties of the filter of disabled reviewers\<close>



section \<open>Example inputs\<close>

definition ok_review :: "string \<Rightarrow> string \<Rightarrow> AIResponse" where
  "ok_review n out =
     \<lparr> success = True, output = out, errors = None, execution_time = 1,
       model = ''m'', ai_name = n \<rparr>"

definition failed_review :: "string \<Rightarrow> AIResponse" where
  "failed_review n =
     \<lparr> success = False, output = [], errors = Some ''exit 1'', execution_time = 1,
       model = ''m'', ai_name = n \<rparr>"

definition three_reviews :: "AIResponse list" where
  "three_reviews =
     [ok_review ''claude'' ''SECURITY hole in the parser'',
      ok_review ''gemini'' ''Security: fine'',
      ok_review ''codex'' ''performance is fine'']"

text \<open>
  An environment for the examples: the reviews of the agents named in \<open>slow\<close> do not
  finish, the improvement calls of the agents named in \<open>failing\<close> exit with code 1 and
  leave the file alone, every other call exits with code 0, and a successful
  improvement appends a line to the file.
\<close>

definition example_env :: "string list \<Rightarrow> string list \<Rightarrow> env" where
  "example_env slow failing =
     \<lparr> implement_proc = (\<lambda>c prompt context_files. Exited 0 ''pass'' [] 1),
       review_proc = (\<lambda>c code original_prompt context.
          if name c \<in> set slow then Unfinished else Exited 0 (''review by '' @ name c) [] 1),
       improve_proc = (\<lambda>c file_path review_output original_prompt files0.
          if name c \<in> set failing then (Exited 1 [] ''no edit'' 1, files0)
          else (Exited 0 (''edited by '' @ name c) [] 1,
                files0(file_path \<mapsto> (case files0 file_path of None \<Rightarrow> [] | Some s \<Rightarrow> s)
                                       @ ''# '' @ name c))),
       generate = (\<lambda>prompt implementation sm common_themes improvements final_code. ''report'') \<rparr>"

definition example_section :: ai_section where
  "example_section = \<lparr> enabled = True, cfg_model = Some ''pro'' \<rparr>"

definition gemini :: client where
  "gemini = \<lparr> client_class = GeminiClient, name = ''gemini'', config = example_section \<rparr>"

definition claude :: client where
  "claude = \<lparr> client_class = ClaudeClient, name = ''claude'', config = example_section \<rparr>"

definition codex :: client where
  "codex = \<lparr> client_class = CodexClient, name = ''codex'', config = example_section \<rparr>"

definition example_implementation :: AIResponse where
  "example_implementation = ok_review ''gemini'' ''pass''"

definition example_config :: app_config where
  "example_config =
     \<lparr> ai = [''gemini'' \<mapsto> example_section, ''claude'' \<mapsto> example_section,
             ''codex'' \<mapsto> example_section],
       timeout_seconds = Some 300 \<rparr>"

definition example_run :: "string list \<Rightarrow> string list \<Rightarrow> run" where
  "example_run reviewer_names failing =
     run_review_workflow (example_env [] failing) ''task'' ''gemini'' reviewer_names [] None
       example_config True ''/tmp/tmpq3x.py'' Map.empty"

definition example_loop :: "client list \<Rightarrow> string list \<Rightarrow> unit awaited \<times> loop_state" where
  "example_loop reviewers failing =
     improve_loop (example_env [] failing) reviewers ''/tmp/tmpq3x.py'' ''task''
       (map (\<lambda>c. ok_review (name c) (''review by '' @ name c)) reviewers)
       \<lparr> fs = [''/tmp/tmpq3x.py'' \<mapsto> ''pass''], improvement_logs = [], calls = [] \<rparr>"






section \<open>Properties of aggregate\<close>

lemma update_fresh: "k \<notin> fst ` set d \<Longrightarrow> AList.update k v d = d @ [(k, v)]"
  by (induction d) auto

lemma aggregate_loop_distinct:
  "distinct (map fst d) \<Longrightarrow> distinct (map fst (aggregate_loop rs d))"
  by (induction rs arbitrary: d) (auto simp: distinct_update)

lemma aggregate_loop_length:
  "length (aggregate_loop rs d) \<le> length d + length rs"
proof (induction rs arbitrary: d)
  case Nil
  show ?case by simp
next
  case (Cons r rs)
  have "length (AList.update (ai_name r) (output r) d) \<le> Suc (length d)"
    by (induction d) auto
  with Cons [of "AList.update (ai_name r) (output r) d"] Cons [of d]
  show ?case by (auto split: if_splits)
qed

lemma aggregate_loop_map_of:
  "map_of (aggregate_loop rs d) k =
     (case filter (\<lambda>r. success r \<and> ai_name r = k) rs of
        [] \<Rightarrow> map_of d k
      | x # xs \<Rightarrow> Some (output (last (x # xs))))"
proof (induction rs arbitrary: d)
  case Nil
  show ?case by simp
next
  case (Cons r rs)
  show ?case
    by (cases "filter (\<lambda>r. success r \<and> ai_name r = k) rs")
       (auto simp: Cons update_conv')
qed

text \<open>
  C5. For every input sequence, \<open>aggregate\<close> returns a summary in which
  \<open>total_reviews\<close> counts the inputs, \<open>reviews_by_ai\<close> has one entry per agent name with a
  successful review and no other, the entry of a name holds the output of the last
  successful review of that name (a later duplicate overwrites an earlier one), and
  \<open>successful_reviews\<close> is the number of entries, which is at most \<open>total_reviews\<close>.
\<close>

theorem aggregate_summary:
  "total_reviews (aggregate reviews) = int (length reviews)
   \<and> successful_reviews (aggregate reviews) = int (length (reviews_by_ai (aggregate reviews)))
   \<and> successful_reviews (aggregate reviews)
       = int (card (dom (map_of (reviews_by_ai (aggregate reviews)))))
   \<and> successful_reviews (aggregate reviews) \<le> total_reviews (aggregate reviews)
   \<and> distinct (map fst (reviews_by_ai (aggregate reviews)))
   \<and> map_of (reviews_by_ai (aggregate reviews)) k =
       (case filter (\<lambda>r. success r \<and> ai_name r = k) reviews of
          [] \<Rightarrow> None
        | x # xs \<Rightarrow> Some (output (last (x # xs))))"
proof -
  let ?d = "aggregate_loop reviews []"
  have d: "distinct (map fst ?d)" by (rule aggregate_loop_distinct) simp
  have c: "card (dom (map_of ?d)) = length ?d"
    using d by (simp add: dom_map_of_conv_image_fst distinct_card flip: set_map)
  have l: "length ?d \<le> length reviews" using aggregate_loop_length [of reviews "[]"] by simp
  have m: "map_of ?d k = (case filter (\<lambda>r. success r \<and> ai_name r = k) reviews of
          [] \<Rightarrow> None | x # xs \<Rightarrow> Some (output (last (x # xs))))"
    by (simp add: aggregate_loop_map_of split: list.splits)
  show ?thesis using d c l m by (simp add: aggregate_def Let_def)
qed

theorem aggregate_summary_witness:
  "total_reviews (aggregate [ok_review ''claude'' ''a'', failed_review ''codex'',
                             ok_review ''claude'' ''b'']) = 3
   \<and> successful_reviews (aggregate [ok_review ''claude'' ''a'', failed_review ''codex'',
                                    ok_review ''claude'' ''b'']) = 1
   \<and> map_of (reviews_by_ai (aggregate [ok_review ''claude'' ''a'', failed_review ''codex'',
                                       ok_review ''claude'' ''b''])) ''claude'' = Some ''b''
   \<and> map_of (reviews_by_ai (aggregate [ok_review ''claude'' ''a'', failed_review ''codex'',
                                       ok_review ''claude'' ''b''])) ''codex'' = None"
  using aggregate_summary [of "[ok_review ''claude'' ''a'', failed_review ''codex'',
                                ok_review ''claude'' ''b'']" "''claude''"]
  by (simp add: aggregate_def ok_review_def failed_review_def)

lemma aggregate_loop_distinct_names:
  "distinct (map ai_name rs) \<Longrightarrow> set (map ai_name rs) \<inter> fst ` set d = {} \<Longrightarrow>
   aggregate_loop rs d = d @ map (\<lambda>r. (ai_name r, output r)) (filter success rs)"
proof (induction rs arbitrary: d)
  case Nil
  show ?case by simp
next
  case (Cons r rs)
  show ?case
  proof (cases "success r")
    case True
    have f: "ai_name r \<notin> fst ` set d" using Cons.prems by auto
    have "set (map ai_name rs) \<inter> fst ` set (d @ [(ai_name r, output r)]) = {}"
      using Cons.prems by auto
    with Cons.IH [of "d @ [(ai_name r, output r)]"] Cons.prems True f
    show ?thesis by (simp add: update_fresh)
  next
    case False
    with Cons.IH [of d] Cons.prems show ?thesis by auto
  qed
qed

lemma filter_length_mset: "mset xs = mset ys \<Longrightarrow> length (filter P xs) = length (filter P ys)"
  by (metis mset_filter size_mset)

text \<open>
  C7. \<open>aggregate\<close> is invariant under reordering of its input: for reviews with pairwise
  distinct agent names and any permutation of them, the two summaries have the same
  \<open>total_reviews\<close>, the same \<open>successful_reviews\<close> and the same set of key/value pairs in
  \<open>reviews_by_ai\<close>.
\<close>

theorem aggregate_reorder:
  assumes "distinct (map ai_name rs)" and "mset rs' = mset rs"
  shows "total_reviews (aggregate rs') = total_reviews (aggregate rs)
       \<and> successful_reviews (aggregate rs') = successful_reviews (aggregate rs)
       \<and> set (reviews_by_ai (aggregate rs')) = set (reviews_by_ai (aggregate rs))"
proof -
  have "mset (map ai_name rs') = mset (map ai_name rs)" using assms(2) by simp
  then have d': "distinct (map ai_name rs')"
    using assms(1) by (metis mset_eq_imp_distinct_iff)
  have a: "aggregate_loop rs [] = map (\<lambda>r. (ai_name r, output r)) (filter success rs)"
    using aggregate_loop_distinct_names [OF assms(1), of "[]"] by simp
  have a': "aggregate_loop rs' [] = map (\<lambda>r. (ai_name r, output r)) (filter success rs')"
    using aggregate_loop_distinct_names [OF d', of "[]"] by simp
  have s: "set rs' = set rs" using assms(2) by (rule mset_eq_setD)
  have l: "length rs' = length rs" using assms(2) by (rule mset_eq_length)
  have f: "length (filter success rs') = length (filter success rs)"
    using assms(2) by (rule filter_length_mset)
  show ?thesis by (simp add: aggregate_def Let_def a a' s l f)
qed

theorem aggregate_reorder_witness:
  "distinct (map ai_name [ok_review ''claude'' ''a'', failed_review ''codex'', ok_review ''gemini'' ''b''])
   \<and> mset [ok_review ''gemini'' ''b'', ok_review ''claude'' ''a'', failed_review ''codex'']
       = mset [ok_review ''claude'' ''a'', failed_review ''codex'', ok_review ''gemini'' ''b'']
   \<and> total_reviews (aggregate [ok_review ''gemini'' ''b'', ok_review ''claude'' ''a'', failed_review ''codex''])
       = total_reviews (aggregate [ok_review ''claude'' ''a'', failed_review ''codex'', ok_review ''gemini'' ''b''])
   \<and> successful_reviews (aggregate [ok_review ''gemini'' ''b'', ok_review ''claude'' ''a'', failed_review ''codex''])
       = successful_reviews (aggregate [ok_review ''claude'' ''a'', failed_review ''codex'', ok_review ''gemini'' ''b''])
   \<and> set (reviews_by_ai (aggregate [ok_review ''gemini'' ''b'', ok_review ''claude'' ''a'', failed_review ''codex'']))
       = set (reviews_by_ai (aggregate [ok_review ''claude'' ''a'', failed_review ''codex'', ok_review ''gemini'' ''b'']))"
proof -
  have d: "distinct (map ai_name [ok_review ''claude'' ''a'', failed_review ''codex'', ok_review ''gemini'' ''b''])"
    by (simp add: ok_review_def failed_review_def)
  have m: "mset [ok_review ''gemini'' ''b'', ok_review ''claude'' ''a'', failed_review ''codex'']
       = mset [ok_review ''claude'' ''a'', failed_review ''codex'', ok_review ''gemini'' ''b'']"
    by (simp add: add.commute)
  show ?thesis using d m aggregate_reorder [OF d m] by blast
qed

section \<open>Properties of find\_common\_themes\<close>

lemma themes_loop_eq:
  "themes_loop ks reviews acc =
     acc @ map (\<lambda>k. theme k (mentions k reviews)) (filter (\<lambda>k. 2 \<le> mentions k reviews) ks)"
  by (induction ks arbitrary: acc) (auto simp: Let_def)

lemma security_keyword: "''security'' \<in> set keywords'"
  by (simp add: keywords'_def)

lemma digit_chars:
  assumes "d < 10"
  shows "digit_value (''0123456789'' ! d) = d"
    and "''0123456789'' ! d \<in> set ''0123456789''"
    and "d \<noteq> 0 \<Longrightarrow> ''0123456789'' ! d \<noteq> CHR ''0''"
proof -
  from assms have "d = 0 \<or> d = 1 \<or> d = 2 \<or> d = 3 \<or> d = 4 \<or> d = 5 \<or> d = 6 \<or> d = 7 \<or> d = 8 \<or> d = 9"
    by arith
  then show "digit_value (''0123456789'' ! d) = d"
    and "''0123456789'' ! d \<in> set ''0123456789''"
    and "d \<noteq> 0 \<Longrightarrow> ''0123456789'' ! d \<noteq> CHR ''0''"
    by (auto simp: digit_value_def)
qed

lemma decimal_value_snoc: "decimal_value (s @ [c]) = 10 * decimal_value s + digit_value c"
  by (simp add: decimal_value_def)

lemma str_nat_decimal:
  "decimal_value (str_nat n) = n \<and> str_nat n \<noteq> []
   \<and> set (str_nat n) \<subseteq> set ''0123456789''
   \<and> (n \<noteq> 0 \<longrightarrow> hd (str_nat n) \<noteq> CHR ''0'')"
proof (induction n rule: str_nat.induct)
  case (1 n)
  show ?case
  proof (cases "n < 10")
    case True
    then have s: "str_nat n = [''0123456789'' ! n]"
      by (simp add: str_nat.simps [of n])
    have "decimal_value [''0123456789'' ! n] = n"
      using digit_chars(1) [OF True] by (simp add: decimal_value_def)
    with s digit_chars(2,3) [OF True] show ?thesis by simp
  next
    case False
    then have s: "str_nat n = str_nat (n div 10) @ [''0123456789'' ! (n mod 10)]"
      by (simp add: str_nat.simps [of n])
    have m: "n mod 10 < 10" by simp
    from False have q: "n div 10 \<noteq> 0" by simp
    from "1.IH" [OF False] q
    have ih: "decimal_value (str_nat (n div 10)) = n div 10" "str_nat (n div 10) \<noteq> []"
      "set (str_nat (n div 10)) \<subseteq> set ''0123456789''" "hd (str_nat (n div 10)) \<noteq> CHR ''0''"
      by simp_all
    have "decimal_value (str_nat n) = n"
      using ih(1) digit_chars(1) [OF m] by (simp add: s decimal_value_snoc)
    moreover have "set (str_nat n) \<subseteq> set ''0123456789''"
      using ih(3) digit_chars(2) [OF m] by (simp add: s)
    moreover have "hd (str_nat n) \<noteq> CHR ''0''"
      using ih(2,4) by (simp add: s)
    ultimately show ?thesis by (simp add: s)
  qed
qed

lemma upper_letters: "map char_of [65 ..< 91 :: nat] = ''ABCDEFGHIJKLMNOPQRSTUVWXYZ''"
  by code_simp

lemma upper_table:
  "list_all (\<lambda>c. lower_char c = ascii_lower c) ''ABCDEFGHIJKLMNOPQRSTUVWXYZ''"
  by code_simp

lemma upper_range:
  "65 \<le> (of_char c :: nat) \<Longrightarrow> (of_char c :: nat) \<le> 90 \<Longrightarrow> c \<in> set ''ABCDEFGHIJKLMNOPQRSTUVWXYZ''"
proof -
  assume "65 \<le> (of_char c :: nat)" "(of_char c :: nat) \<le> 90"
  then have "(of_char c :: nat) \<in> {65 ..< 91}" by simp
  then have "(of_char c :: nat) \<in> set [65 ..< 91]" by (simp only: set_upt)
  then have "char_of (of_char c :: nat) \<in> set (map char_of [65 ..< 91 :: nat])"
    unfolding set_map by (rule imageI)
  then show ?thesis by (simp only: upper_letters char_of_char)
qed

lemma lower_char_table: "lower_char c = ascii_lower c"
proof (cases "c \<in> set ''ABCDEFGHIJKLMNOPQRSTUVWXYZ''")
  case True
  with upper_table show ?thesis by (simp only: list_all_iff)
next
  case False
  then have "\<not> (65 \<le> (of_char c :: nat) \<and> (of_char c :: nat) \<le> 90)"
    using upper_range by blast
  then have l: "lower_char c = c" unfolding lower_char_def by (rule if_not_P)
  from False have "map_of (zip ''ABCDEFGHIJKLMNOPQRSTUVWXYZ'' ''abcdefghijklmnopqrstuvwxyz'') c = None"
    by (simp add: map_of_eq_None_iff)
  with l show ?thesis by (simp add: ascii_lower_def)
qed

lemma lower_table: "lower s = map ascii_lower s"
  by (simp add: lower_def lower_char_table)

lemma mentions_card:
  "mentions k reviews =
     card {i. i < length reviews
            \<and> (\<exists>pre suf. map ascii_lower (output (reviews ! i)) = pre @ map ascii_lower k @ suf)}"
  by (simp add: mentions_def length_filter_conv_card sublist_def lower_table)

lemma performance_prefix:
  "k \<in> set keywords' \<Longrightarrow> prefix ''performance'' (k @ r) \<Longrightarrow> k = ''performance''"
  by (auto simp: keywords'_def)

lemma themes_explicit:
  "find_common_themes reviews =
     map (\<lambda>k. k @ '' ('' @ [CHR 0xE6, CHR 0x8F, CHR 0x90, CHR 0xE5, CHR 0x88, CHR 0xB0] @ '' ''
                 @ str_nat (mentions k reviews)
                 @ '' '' @ [CHR 0xE6, CHR 0xAC, CHR 0xA1] @ '')'')
         (filter (\<lambda>k. 2 \<le> mentions k reviews) keywords')"
  by (simp add: find_common_themes_def themes_loop_eq theme_def)

text \<open>
  C6. \<open>find_common_themes\<close> is a function of the reviews. It goes through the fixed
  keyword list in its order and keeps a keyword exactly when at least 2 reviews contain
  it, where a review contains a keyword when the keyword is a substring of the review's
  output after both are lower-cased (\<open>mentions\<close> is the number of such reviews). Each
  kept keyword is rendered as the keyword, a space, an opening parenthesis, the Chinese
  word for "mentioned", a space, the count in decimal digits, a space, the Chinese word
  for "times" and a closing parenthesis. In particular, when two reviews mention
  "security" and fewer than two mention "performance", the result has the "security"
  entry with count 2 and no entry that starts with "performance".
\<close>

theorem find_common_themes_spec:
  "find_common_themes reviews =
     map (\<lambda>k. k @ '' ('' @ [CHR 0xE6, CHR 0x8F, CHR 0x90, CHR 0xE5, CHR 0x88, CHR 0xB0] @ '' ''
                 @ str_nat (mentions k reviews)
                 @ '' '' @ [CHR 0xE6, CHR 0xAC, CHR 0xA1] @ '')'')
         (filter (\<lambda>k. 2 \<le> mentions k reviews)
            [''bug'',
             [CHR 0xE9, CHR 0x94, CHR 0x99, CHR 0xE8, CHR 0xAF, CHR 0xAF],
             ''error'',
             ''issue'',
             [CHR 0xE9, CHR 0x97, CHR 0xAE, CHR 0xE9, CHR 0xA2, CHR 0x98],
             ''security'',
             [CHR 0xE5, CHR 0xAE, CHR 0x89, CHR 0xE5, CHR 0x85, CHR 0xA8],
             ''performance'',
             [CHR 0xE6, CHR 0x80, CHR 0xA7, CHR 0xE8, CHR 0x83, CHR 0xBD],
             ''optimize'',
             [CHR 0xE4, CHR 0xBC, CHR 0x98, CHR 0xE5, CHR 0x8C, CHR 0x96],
             ''improve'',
             [CHR 0xE6, CHR 0x94, CHR 0xB9, CHR 0xE8, CHR 0xBF, CHR 0x9B]])
   \<and> decimal_value (str_nat n) = n
   \<and> str_nat n \<noteq> []
   \<and> set (str_nat n) \<subseteq> set ''0123456789''
   \<and> (n \<noteq> 0 \<longrightarrow> hd (str_nat n) \<noteq> CHR ''0'')
   \<and> mentions k reviews =
       card {i. i < length reviews
              \<and> (\<exists>pre suf. map ascii_lower (output (reviews ! i)) = pre @ map ascii_lower k @ suf)}
   \<and> (mentions ''security'' reviews = 2 \<and> mentions ''performance'' reviews < 2 \<longrightarrow>
        ''security ('' @ [CHR 0xE6, CHR 0x8F, CHR 0x90, CHR 0xE5, CHR 0x88, CHR 0xB0] @ '' 2 ''
            @ [CHR 0xE6, CHR 0xAC, CHR 0xA1] @ '')'' \<in> set (find_common_themes reviews)
        \<and> (\<forall>s \<in> set (find_common_themes reviews). \<not> prefix ''performance'' s))"
proof -
  let ?entry = "\<lambda>k. k @ '' ('' @ [CHR 0xE6, CHR 0x8F, CHR 0x90, CHR 0xE5, CHR 0x88, CHR 0xB0] @ '' ''
                 @ str_nat (mentions k reviews)
                 @ '' '' @ [CHR 0xE6, CHR 0xAC, CHR 0xA1] @ '')''"
  have eq: "find_common_themes reviews = map ?entry (filter (\<lambda>k. 2 \<le> mentions k reviews) keywords')"
    by (rule themes_explicit)
  have two: "str_nat 2 = ''2''"
    by (simp add: str_nat.simps)
  have sec: "''security ('' @ [CHR 0xE6, CHR 0x8F, CHR 0x90, CHR 0xE5, CHR 0x88, CHR 0xB0] @ '' 2 ''
            @ [CHR 0xE6, CHR 0xAC, CHR 0xA1] @ '')'' \<in> set (find_common_themes reviews)"
    if "mentions ''security'' reviews = 2"
  proof -
    have "''security'' \<in> set (filter (\<lambda>k. 2 \<le> mentions k reviews) keywords')"
      using that security_keyword by simp
    then have "?entry ''security'' \<in> set (find_common_themes reviews)"
      unfolding eq set_map by (rule imageI)
    with that two show ?thesis by simp
  qed
  have perf: "\<not> prefix ''performance'' s"
    if "mentions ''performance'' reviews < 2" and "s \<in> set (find_common_themes reviews)" for s
  proof
    assume p: "prefix ''performance'' s"
    from that(2) obtain k where k: "k \<in> set keywords'" "2 \<le> mentions k reviews" "s = ?entry k"
      unfolding eq by auto
    from p k(3) have "prefix ''performance'' (k @ '' ('' @ [CHR 0xE6, CHR 0x8F, CHR 0x90, CHR 0xE5, CHR 0x88, CHR 0xB0] @ '' ''
                 @ str_nat (mentions k reviews)
                 @ '' '' @ [CHR 0xE6, CHR 0xAC, CHR 0xA1] @ '')'')"
      by simp
    with k(1) have "k = ''performance''" by (rule performance_prefix)
    with k(2) that(1) show False by simp
  qed
  show ?thesis
    using eq [unfolded keywords'_def] str_nat_decimal [of n] mentions_card [of k reviews] sec perf
    by blast
qed

theorem find_common_themes_spec_witness:
  "mentions ''security'' three_reviews = 2
   \<and> mentions ''performance'' three_reviews < 2
   \<and> find_common_themes three_reviews
       = [''security ('' @ [CHR 0xE6, CHR 0x8F, CHR 0x90, CHR 0xE5, CHR 0x88, CHR 0xB0] @ '' 2 ''
            @ [CHR 0xE6, CHR 0xAC, CHR 0xA1] @ '')'']
   \<and> ''security ('' @ [CHR 0xE6, CHR 0x8F, CHR 0x90, CHR 0xE5, CHR 0x88, CHR 0xB0] @ '' 2 ''
            @ [CHR 0xE6, CHR 0xAC, CHR 0xA1] @ '')'' \<in> set (find_common_themes three_reviews)
   \<and> (\<exists>s \<in> set (find_common_themes three_reviews). prefix ''performance'' s) = False
   \<and> str_nat 12 = ''12'' \<and> decimal_value (str_nat 12) = 12
   \<and> find_common_themes (three_reviews @ three_reviews)
       = [''security ('' @ [CHR 0xE6, CHR 0x8F, CHR 0x90, CHR 0xE5, CHR 0x88, CHR 0xB0] @ '' 4 ''
            @ [CHR 0xE6, CHR 0xAC, CHR 0xA1] @ '')'',
          ''performance ('' @ [CHR 0xE6, CHR 0x8F, CHR 0x90, CHR 0xE5, CHR 0x88, CHR 0xB0] @ '' 2 ''
            @ [CHR 0xE6, CHR 0xAC, CHR 0xA1] @ '')'']"
proof -
  have s: "mentions ''security'' three_reviews = 2"
    by code_simp
  have p: "mentions ''performance'' three_reviews < 2"
    by code_simp
  have f: "find_common_themes three_reviews
       = [''security ('' @ [CHR 0xE6, CHR 0x8F, CHR 0x90, CHR 0xE5, CHR 0x88, CHR 0xB0] @ '' 2 ''
            @ [CHR 0xE6, CHR 0xAC, CHR 0xA1] @ '')'']"
    by code_simp
  have t: "str_nat 12 = ''12''"
    by code_simp
  have g: "find_common_themes (three_reviews @ three_reviews)
       = [''security ('' @ [CHR 0xE6, CHR 0x8F, CHR 0x90, CHR 0xE5, CHR 0x88, CHR 0xB0] @ '' 4 ''
            @ [CHR 0xE6, CHR 0xAC, CHR 0xA1] @ '')'',
          ''performance ('' @ [CHR 0xE6, CHR 0x8F, CHR 0x90, CHR 0xE5, CHR 0x88, CHR 0xB0] @ '' 2 ''
            @ [CHR 0xE6, CHR 0xAC, CHR 0xA1] @ '')'']"
    by code_simp
  from find_common_themes_spec [of three_reviews 12 "''security''"] s p
  have "''security ('' @ [CHR 0xE6, CHR 0x8F, CHR 0x90, CHR 0xE5, CHR 0x88, CHR 0xB0] @ '' 2 ''
            @ [CHR 0xE6, CHR 0xAC, CHR 0xA1] @ '')'' \<in> set (find_common_themes three_reviews)"
    and "\<forall>s \<in> set (find_common_themes three_reviews). \<not> prefix ''performance'' s"
    and "decimal_value (str_nat 12) = 12"
    by blast+
  with s p f t g show ?thesis by simp
qed

section \<open>Properties of review\_code\<close>

lemma gather_pending: "Pending \<in> set ts \<Longrightarrow> gather ts = None"
  by (induction ts rule: gather.induct) auto

lemma successful_loop_eq:
  "successful_loop rs acc =
     acc @ filter success (concat (map (\<lambda>x. case x of Inl e \<Rightarrow> [] | Inr rv \<Rightarrow> [rv]) rs))"
  by (induction rs acc rule: successful_loop.induct) auto

lemma gather_settled:
  "Pending \<notin> set ts \<Longrightarrow>
   \<exists>rs. gather ts = Some rs
      \<and> concat (map (\<lambda>x. case x of Inl e \<Rightarrow> [] | Inr rv \<Rightarrow> [rv]) rs)
        = concat (map (\<lambda>t. case t of Value rv \<Rightarrow> [rv] | Raise x \<Rightarrow> [] | Pending \<Rightarrow> []) ts)"
  by (induction ts rule: gather.induct) auto

text \<open>
  C1. When the timeout elapses before every review has settled, that is, when the review
  of at least one reviewer is still pending at the deadline, \<open>review_code\<close> returns the
  empty list, whatever the other reviewers returned before the deadline.
\<close>

theorem review_code_timeout:
  assumes "r \<in> set reviewers"
    and "review e r (output implementation) original_prompt context = Pending"
  shows "review_code e implementation reviewers original_prompt context = []"
proof -
  have "Pending \<in> set (map (\<lambda>reviewer. review e reviewer (output implementation) original_prompt context) reviewers)"
    using assms by force
  then show ?thesis
    by (simp add: review_code_def gather_pending)
qed

theorem review_code_timeout_witness:
  "gemini \<in> set [codex, gemini, claude]
   \<and> review (example_env [''gemini''] []) gemini (output example_implementation) ''task'' [] = Pending
   \<and> review (example_env [''gemini''] []) codex (output example_implementation) ''task'' []
       = Value (codex_disabled codex)
   \<and> review (example_env [''gemini''] []) claude (output example_implementation) ''task'' []
       = Value \<lparr> success = True, output = ''review by claude'', errors = None,
                 execution_time = 1, model = ''claude'', ai_name = ''claude'' \<rparr>
   \<and> review_code (example_env [''gemini''] []) example_implementation [codex, gemini, claude]
        ''task'' [] = []"
proof -
  have m: "gemini \<in> set [codex, gemini, claude]" by simp
  have p: "review (example_env [''gemini''] []) gemini (output example_implementation) ''task'' [] = Pending"
    by (simp add: review_def response_def example_env_def gemini_def example_section_def)
  have c: "review (example_env [''gemini''] []) codex (output example_implementation) ''task'' []
       = Value (codex_disabled codex)"
    by (simp add: review_def codex_def)
  have a: "review (example_env [''gemini''] []) claude (output example_implementation) ''task'' []
       = Value \<lparr> success = True, output = ''review by claude'', errors = None,
                 execution_time = 1, model = ''claude'', ai_name = ''claude'' \<rparr>"
    by (simp add: review_def response_def example_env_def claude_def)
  show ?thesis
    using m p c a review_code_timeout [OF m p] by blast
qed

text \<open>
  C2. When no timeout occurs, that is, when every review has settled by the deadline,
  \<open>review_code\<close> returns exactly the responses with \<open>success == True\<close>, in the order of
  the reviewers: a review that raised or that has \<open>success == False\<close> is left out and
  the responses of the other reviewers are kept. The result is no longer than the list of
  reviewers and every entry is successful.
\<close>

theorem review_code_settled:
  assumes "Pending \<notin> set (map (\<lambda>r. review e r (output implementation) original_prompt context) reviewers)"
  shows "review_code e implementation reviewers original_prompt context
         = filter success (concat (map (\<lambda>r.
             case review e r (output implementation) original_prompt context of
               Value rv \<Rightarrow> [rv] | Raise x \<Rightarrow> [] | Pending \<Rightarrow> []) reviewers))
       \<and> length (review_code e implementation reviewers original_prompt context) \<le> length reviewers
       \<and> (\<forall>rv \<in> set (review_code e implementation reviewers original_prompt context). success rv)"
proof -
  let ?f = "\<lambda>r. case review e r (output implementation) original_prompt context of
               Value rv \<Rightarrow> [rv] | Raise x \<Rightarrow> [] | Pending \<Rightarrow> []"
  from gather_settled [OF assms] obtain rs where
    rs: "gather (map (\<lambda>r. review e r (output implementation) original_prompt context) reviewers) = Some rs"
      "concat (map (\<lambda>x. case x of Inl e \<Rightarrow> [] | Inr rv \<Rightarrow> [rv]) rs) = concat (map ?f reviewers)"
    by (auto simp: comp_def)
  have eq: "review_code e implementation reviewers original_prompt context
         = filter success (concat (map ?f reviewers))"
    using rs by (simp add: review_code_def successful_loop_eq)
  have "length (concat (map ?f reviewers)) \<le> length reviewers"
    by (induction reviewers) (auto split: awaited.splits)
  then have len: "length (filter success (concat (map ?f reviewers))) \<le> length reviewers"
    using length_filter_le [of success "concat (map ?f reviewers)"] by linarith
  show ?thesis using eq len by simp
qed

theorem review_code_settled_witness:
  "Pending \<notin> set (map (\<lambda>r. review (example_env [] []) r (output example_implementation) ''task'' [])
                      [codex, gemini, claude])
   \<and> review_code (example_env [] []) example_implementation [codex, gemini, claude] ''task'' []
       = [\<lparr> success = True, output = ''review by gemini'', errors = None,
             execution_time = 1, model = ''pro'', ai_name = ''gemini'' \<rparr>,
          \<lparr> success = True, output = ''review by claude'', errors = None,
             execution_time = 1, model = ''claude'', ai_name = ''claude'' \<rparr>]
   \<and> length (review_code (example_env [] []) example_implementation [codex, gemini, claude] ''task'' [])
       \<le> length [codex, gemini, claude]"
proof -
  have h: "Pending \<notin> set (map (\<lambda>r. review (example_env [] []) r (output example_implementation) ''task'' [])
                      [codex, gemini, claude])"
    by (simp add: review_def response_def example_env_def gemini_def claude_def codex_def
        example_section_def)
  show ?thesis
    using h review_code_settled [OF h]
    by (simp add: review_def response_def example_env_def gemini_def claude_def codex_def
        example_section_def codex_disabled_def)
qed

section \<open>Properties of the improvement loop\<close>

lemma case_last_snoc:
  "(case xs @ [c] of [] \<Rightarrow> None | x # ys \<Rightarrow> Some (g (last (x # ys)))) = Some (g c)"
  by (cases xs) auto

lemma recorded_snoc:
  "recorded (cs @ [c]) k =
     (if fst c = k \<and> successful_call (snd c) then Some (call_output (snd c)) else recorded cs k)"
proof (cases "fst c = k \<and> successful_call (snd c)")
  case True
  then have "filter (\<lambda>c. fst c = k \<and> successful_call (snd c)) (cs @ [c])
             = filter (\<lambda>c. fst c = k \<and> successful_call (snd c)) cs @ [c]"
    by simp
  then show ?thesis
    using True
      case_last_snoc [where xs = "filter (\<lambda>c. fst c = k \<and> successful_call (snd c)) cs"
        and c = c and g = "\<lambda>z. call_output (snd z)"]
    by (simp add: recorded_def)
next
  case False
  then show ?thesis by (auto simp: recorded_def)
qed

lemma recorded_Nil: "recorded [] k = None"
  by (simp add: recorded_def)


lemma improve_loop_recorded:
  "improve_loop e reviewers path prompt reviews st = (res, st') \<Longrightarrow>
   map_of (improvement_logs st) k = recorded (calls st) k \<Longrightarrow>
   map_of (improvement_logs st') k = recorded (calls st') k"
proof (induction reviews arbitrary: st)
  case Nil
  then show ?case by simp
next
  case (Cons rv rest)
  show ?case
  proof (cases "find (\<lambda>r. name r = ai_name rv) reviewers")
    case None
    with Cons show ?thesis by simp
  next
    case (Some reviewer)
    then have nm: "name reviewer = ai_name rv"
      by (auto simp: find_Some_iff)
    show ?thesis
    proof (cases "has_improve_file reviewer")
      case False
      with Some Cons show ?thesis by simp
    next
      case True
      obtain a fs' where imp: "improve_file e reviewer path (output rv) prompt (fs st) = (a, fs')"
        by (cases "improve_file e reviewer path (output rv) prompt (fs st)")
      show ?thesis
      proof (cases a)
        case (Value improved)
        let ?st = "\<lparr> fs = fs',
                     improvement_logs =
                       (if success improved
                        then AList.update (ai_name rv) (output improved) (improvement_logs st)
                        else improvement_logs st),
                     calls = calls st @ [(name reviewer, Value improved)] \<rparr>"
        have run: "improve_loop e reviewers path prompt rest ?st = (res, st')"
          using Cons.prems(1) Some True imp Value by simp
        have inv: "map_of (improvement_logs ?st) k = recorded (calls ?st) k"
          using Cons.prems(2) nm
          by (simp add: recorded_snoc update_conv' successful_call_def call_output_def)
        from Cons.IH [OF run inv] show ?thesis .
      next
        case (Raise x)
        then have "st' = st\<lparr> fs := fs', calls := calls st @ [(name reviewer, Raise x)] \<rparr>"
          using Cons.prems(1) Some True imp by simp
        then show ?thesis
          using Cons.prems(2) by (simp add: recorded_snoc successful_call_def)
      next
        case Pending
        then have "st' = st\<lparr> fs := fs', calls := calls st @ [(name reviewer, Pending)] \<rparr>"
          using Cons.prems(1) Some True imp by simp
        then show ?thesis
          using Cons.prems(2) by (simp add: recorded_snoc successful_call_def)
      qed
    qed
  qed
qed


text \<open>
  C3 as stated fails: the call of \<open>improve_file\<close> of the reviewer "claude" returns a
  response with \<open>success == False\<close>, and \<open>improvement_logs\<close> has no entry for "claude"
  at the end of the run.
\<close>

theorem failed_improvement_not_recorded:
  "improve_calls (example_run [''claude''] [''claude''])
     = [(''claude'', Value \<lparr> success = False, output = [], errors = Some ''no edit'',
                              execution_time = 1, model = ''claude'', ai_name = ''claude'' \<rparr>)]
   \<and> map_of (logs (example_run [''claude''] [''claude''])) ''claude'' = None
   \<and> logs (example_run [''claude''] [''claude'']) = []"
  by (simp add: example_run_def run_review_workflow_def lookup_client_def example_config_def
      create_client_def lower_def lower_char_def implement_def response_def example_env_def
      example_section_def review_code_def review_def improvement_phase_def has_improve_file_def
      improve_file_def report_phase_def Let_def)

text \<open>
  C3, amended. In the improvement loop, \<open>improvement_logs\<close> records under an agent name
  the output of the last call of \<open>improve_file\<close> of that agent that returned a response
  with \<open>success == True\<close>: every successful call is recorded, and an agent whose calls
  all failed (or raised) has no entry.
\<close>

theorem improvement_logs_record_successes:
  assumes "improve_loop e reviewers path prompt reviews
             \<lparr> fs = files0, improvement_logs = [], calls = [] \<rparr> = (res, st)"
  shows "map_of (improvement_logs st) k = recorded (calls st) k
       \<and> (\<forall>r. (k, Value r) \<in> set (calls st) \<and> success r \<longrightarrow> map_of (improvement_logs st) k \<noteq> None)
       \<and> ((\<forall>a. (k, a) \<in> set (calls st) \<longrightarrow> \<not> successful_call a) \<longrightarrow>
            map_of (improvement_logs st) k = None)"
proof -
  have eq: "map_of (improvement_logs st) k = recorded (calls st) k"
    using improve_loop_recorded [OF assms, of k] by (simp add: recorded_Nil)
  have some: "recorded (calls st) k \<noteq> None" if "(k, Value r) \<in> set (calls st)" "success r" for r
  proof -
    have "\<exists>c \<in> set (calls st). fst c = k \<and> successful_call (snd c)"
      using that by (force simp: successful_call_def)
    then have "filter (\<lambda>c. fst c = k \<and> successful_call (snd c)) (calls st) \<noteq> []"
      by (simp add: filter_empty_conv)
    then show ?thesis by (auto simp: recorded_def split: list.splits)
  qed
  have none: "recorded (calls st) k = None" if "\<forall>a. (k, a) \<in> set (calls st) \<longrightarrow> \<not> successful_call a"
  proof -
    have "filter (\<lambda>c. fst c = k \<and> successful_call (snd c)) (calls st) = []"
      using that by (auto simp: filter_empty_conv)
    then show ?thesis by (simp add: recorded_def)
  qed
  show ?thesis using eq some none by auto
qed

theorem improvement_logs_record_successes_witness:
  "example_loop [gemini, claude] [''gemini'']
     = (fst (example_loop [gemini, claude] [''gemini'']), snd (example_loop [gemini, claude] [''gemini'']))
   \<and> map fst (calls (snd (example_loop [gemini, claude] [''gemini'']))) = [''gemini'', ''claude'']
   \<and> map_of (improvement_logs (snd (example_loop [gemini, claude] [''gemini'']))) ''claude''
       = Some ''edited by claude''
   \<and> map_of (improvement_logs (snd (example_loop [gemini, claude] [''gemini'']))) ''gemini'' = None
   \<and> map_of (improvement_logs (snd (example_loop [gemini, claude] [''gemini'']))) ''gemini''
       = recorded (calls (snd (example_loop [gemini, claude] [''gemini'']))) ''gemini''"
proof -
  have h: "improve_loop (example_env [] [''gemini'']) [gemini, claude] ''/tmp/tmpq3x.py'' ''task''
       (map (\<lambda>c. ok_review (name c) (''review by '' @ name c)) [gemini, claude])
       \<lparr> fs = [''/tmp/tmpq3x.py'' \<mapsto> ''pass''], improvement_logs = [], calls = [] \<rparr>
     = (fst (example_loop [gemini, claude] [''gemini'']), snd (example_loop [gemini, claude] [''gemini'']))"
    by (simp add: example_loop_def)
  have c: "map fst (calls (snd (example_loop [gemini, claude] [''gemini'']))) = [''gemini'', ''claude'']"
    by (simp add: example_loop_def example_env_def gemini_def claude_def example_section_def
        ok_review_def has_improve_file_def improve_file_def response_def)
  have l: "improvement_logs (snd (example_loop [gemini, claude] [''gemini'']))
             = [(''claude'', ''edited by claude'')]"
    by (simp add: example_loop_def example_env_def gemini_def claude_def example_section_def
        ok_review_def has_improve_file_def improve_file_def response_def)
  show ?thesis
    using c l improvement_logs_record_successes [OF h, of "''gemini''"] by simp
qed




text \<open>
  C8 at two concrete runs: in a run whose improvement succeeds and in a run whose
  improvement fails, the temporary file that holds the code is still in the file system
  when the workflow has finished.
\<close>

theorem artifact_file_left_behind:
  "ending (example_run [''claude''] []) = Finished
   \<and> code_file (example_run [''claude''] []) = Some ''/tmp/tmpq3x.py''
   \<and> final_files (example_run [''claude''] []) ''/tmp/tmpq3x.py'' = Some ''pass# claude''
   \<and> ending (example_run [''claude''] [''claude'']) = Finished
   \<and> code_file (example_run [''claude''] [''claude'']) = Some ''/tmp/tmpq3x.py''
   \<and> final_files (example_run [''claude''] [''claude'']) ''/tmp/tmpq3x.py'' = Some ''pass''"
  by (simp add: example_run_def run_review_workflow_def lookup_client_def example_config_def
      create_client_def lower_def lower_char_def implement_def response_def example_env_def
      example_section_def review_code_def review_def improvement_phase_def has_improve_file_def
      improve_file_def report_phase_def Let_def)

section \<open>Properties of the filter of disabled reviewers\<close>



















section \<open>Properties of Singleton\<close>

lemma Singleton_first:
  "instance' w = None \<Longrightarrow>
   Singleton v w =
     (length (heap w),
      w\<lparr> heap := heap w @ [\<lparr> value' = Some v, initialized = Some True \<rparr>],
         instance' := Some (length (heap w)) \<rparr>)"
  by (simp add: Singleton_def new'_def init_def)

lemma Singleton_again:
  "instance' w = Some a \<Longrightarrow> a < length (heap w) \<Longrightarrow> initialized (heap w ! a) = Some True \<Longrightarrow>
   Singleton v w = (a, w)"
  by (simp add: Singleton_def new'_def init_def)

lemma constructs_again:
  "instance' w = Some a \<Longrightarrow> a < length (heap w) \<Longrightarrow> initialized (heap w ! a) = Some True \<Longrightarrow>
   constructs vs w = (replicate (length vs) (a, value' (heap w ! a)), w)"
  by (induction vs) (simp_all add: Singleton_again)

text \<open>
  C10. Starting from a class that has no instance yet, the first call \<open>Singleton(v1)\<close>
  creates the instance, and every later call \<open>Singleton(v)\<close>, whatever its argument,
  returns that same object, whose \<open>value\<close> is still \<open>v1\<close>; the later calls change
  nothing.
\<close>

theorem singleton_same_instance:
  assumes "instance' w0 = None"
    and "Singleton v1 w0 = (a, w1)"
    and "constructs vs w1 = (rs, w2)"
  shows "rs = replicate (length vs) (a, Some v1)
       \<and> w2 = w1
       \<and> instance' w1 = Some a
       \<and> value' (heap w1 ! a) = Some v1"
proof -
  from Singleton_first [OF assms(1), of v1] assms(2)
  have a: "a = length (heap w0)"
    and w1: "w1 = w0\<lparr> heap := heap w0 @ [\<lparr> value' = Some v1, initialized = Some True \<rparr>],
                      instance' := Some (length (heap w0)) \<rparr>"
    by simp_all
  have i: "instance' w1 = Some a" using a w1 by simp
  have l: "a < length (heap w1)" using a w1 by simp
  have t: "initialized (heap w1 ! a) = Some True" using a w1 by simp
  have v: "value' (heap w1 ! a) = Some v1" using a w1 by simp
  from constructs_again [OF i l t, of vs] assms(3) v
  have "rs = replicate (length vs) (a, Some v1)" and "w2 = w1" by simp_all
  with i v show ?thesis by simp
qed

theorem singleton_same_instance_witness:
  "instance' \<lparr> heap = ([] :: string singleton_obj list), instance' = None \<rparr> = None
   \<and> Singleton ''First Instance'' \<lparr> heap = [], instance' = None \<rparr>
       = (0, \<lparr> heap = [\<lparr> value' = Some ''First Instance'', initialized = Some True \<rparr>],
               instance' = Some 0 \<rparr>)
   \<and> constructs [''Second Instance'', ''Third'']
        \<lparr> heap = [\<lparr> value' = Some ''First Instance'', initialized = Some True \<rparr>],
          instance' = Some 0 \<rparr>
       = ([(0, Some ''First Instance''), (0, Some ''First Instance'')],
          \<lparr> heap = [\<lparr> value' = Some ''First Instance'', initialized = Some True \<rparr>],
            instance' = Some 0 \<rparr>)"
proof -
  let ?w0 = "\<lparr> heap = ([] :: string singleton_obj list), instance' = None \<rparr>"
  let ?w1 = "\<lparr> heap = [\<lparr> value' = Some ''First Instance'', initialized = Some True \<rparr>],
               instance' = Some 0 \<rparr>"
  have n: "instance' ?w0 = None" by simp
  have s: "Singleton ''First Instance'' ?w0 = (0, ?w1)"
    by (simp add: Singleton_def new'_def init_def)
  have c: "constructs [''Second Instance'', ''Third''] ?w1
             = (fst (constructs [''Second Instance'', ''Third''] ?w1),
                snd (constructs [''Second Instance'', ''Third''] ?w1))"
    by simp
  from singleton_same_instance [OF n s c]
  have "fst (constructs [''Second Instance'', ''Third''] ?w1)
          = [(0, Some ''First Instance''), (0, Some ''First Instance'')]"
    and "snd (constructs [''Second Instance'', ''Third''] ?w1) = ?w1"
    by (simp_all add: numeral_2_eq_2)
  then have "constructs [''Second Instance'', ''Third''] ?w1
          = ([(0, Some ''First Instance''), (0, Some ''First Instance'')], ?w1)"
    by (metis prod.collapse)
  with n s show ?thesis by simp
qed

end
